theory Spec2Isabelle
  imports Main "HOL-Library.Sublist"
begin

section \<open>The font family feature\<close>

subsection \<open>Configuration types (fontfamily.ts)\<close>

text \<open>
  \<^verbatim>\<open>FontFamilyOption\<close> has a mandatory title and three optional fields. The engine types
  \<^verbatim>\<open>ViewElementDefinition\<close> and \<^verbatim>\<open>MatcherPattern\<close> are only imported as types by the
  sources at hand; they are the type parameters \<open>'v\<close> and \<open>'p\<close>.
\<close>

record ('v, 'p) FontFamilyOption =
  title :: string
  model :: "string option"
  view :: "'v option"
  upcastAlso :: "'p list option"

text \<open>An element of \<^verbatim>\<open>FontFamilyConfig.options\<close>: \<^verbatim>\<open>string | FontFamilyOption\<close>.\<close>

datatype ('v, 'p) ConfiguredOption =
    OptionString string
  | OptionObject "('v, 'p) FontFamilyOption"

text \<open>\<^verbatim>\<open>FontFamilyConfig\<close>: both fields are optional.\<close>

record ('v, 'p) FontFamilyConfig =
  options :: "('v, 'p) ConfiguredOption list option"
  supportAllValues :: "bool option"

text \<open>
  Modelled from the spec: the constant \<^verbatim>\<open>FONT_FAMILY\<close> is imported from \<^verbatim>\<open>'../utils'\<close>,
  which is not among the sources. Its value is fixed by its uses: the constructor defines
  under this name the configuration whose keys \<^verbatim>\<open>init\<close> reads back as
  \<^verbatim>\<open>'fontFamily.options'\<close> and \<^verbatim>\<open>'fontFamily.supportAllValues'\<close>, and the documentation
  of \<^verbatim>\<open>FontFamilyConfig\<close> calls the command added under it \<^verbatim>\<open>'fontFamily'\<close>.
\<close>

definition FONT_FAMILY :: string where
  "FONT_FAMILY = ''fontFamily''"

subsection \<open>JavaScript truthiness\<close>

text \<open>An optional string is truthy when it is defined and not empty.\<close>

fun truthy_string :: "string option \<Rightarrow> bool" where
  "truthy_string None = False"
| "truthy_string (Some s) = (s \<noteq> [])"

text \<open>An optional boolean is truthy when it is defined and true.\<close>

fun truthy_bool :: "bool option \<Rightarrow> bool" where
  "truthy_bool None = False"
| "truthy_bool (Some b) = b"

subsection \<open>View elements\<close>

text \<open>
  A view element as the upcast callbacks read it: \<^verbatim>\<open>getStyle\<close> and \<^verbatim>\<open>getAttribute\<close>
  return the value stored under a name, or \<^verbatim>\<open>undefined\<close>.
\<close>

record ViewElement =
  ve_name :: string
  ve_attributes :: "string \<rightharpoonup> string"
  ve_styles :: "string \<rightharpoonup> string"

definition getStyle :: "ViewElement \<Rightarrow> string \<Rightarrow> string option" where
  "getStyle e k = ve_styles e k"

definition getAttribute :: "ViewElement \<Rightarrow> string \<Rightarrow> string option" where
  "getAttribute e k = ve_attributes e k"

text \<open>
  What \<^verbatim>\<open>writer.createAttributeElement( name, attributes, { priority } )\<close> is given:
  the element name, the attributes in the order written, and the priority.
\<close>

record AttributeElement =
  ae_name :: string
  ae_attributes :: "(string \<times> string) list"
  ae_priority :: nat

subsection \<open>Calls into the framework\<close>

text \<open>
  The calls a converter callback makes when the conversion pipeline runs it.
\<close>

datatype CallbackCall =
    WriterCreateAttributeElement AttributeElement
  | ViewElementGetStyle string
  | ViewElementGetAttribute string
  | CallbackConfigGet string

text \<open>
  The one-way converters of \<^verbatim>\<open>_prepareAnyValueConverters\<close> and
  \<^verbatim>\<open>_prepareCompatibilityConverter\<close>: what
  \<^verbatim>\<open>editor.conversion.for( 'downcast' ).attributeToElement( ... )\<close> and
  \<^verbatim>\<open>editor.conversion.for( 'upcast' ).elementToAttribute( ... )\<close> are given. A callback
  returns its result and the calls it made. The pattern value \<^verbatim>\<open>/.*/\<close> of every view
  pattern is the same in all of them and is not a field.
\<close>

record DowncastAttributeToElement =
  dc_model :: string
  dc_view :: "string \<Rightarrow> AttributeElement \<times> CallbackCall list"

datatype PatternKind = Styles | Attributes

record UpcastElementToAttribute =
  uc_model_key :: string
  uc_model_value :: "ViewElement \<Rightarrow> string option \<times> CallbackCall list"
  uc_view_name :: string
  uc_view_pattern :: "PatternKind \<times> string"

text \<open>
  The calls of \<^verbatim>\<open>FontFamilyEditing\<close> into the framework, in program order:
  \<^verbatim>\<open>super( editor )\<close>, the constructor of the base class \<^verbatim>\<open>Plugin\<close>, and the calls on
  the editor it was given. \<open>'d\<close> is the type of the definition that \<^verbatim>\<open>buildDefinition\<close>
  returns.
\<close>

datatype ('v, 'p, 'd) Call =
    PluginConstructor
  | ConfigDefine string "('v, 'p) FontFamilyConfig"
  | ConfigGet string
  | SchemaExtend string string
  | SchemaSetAttributeProperties string bool bool
  | ConversionAttributeToElement 'd
  | ConversionForDowncastAttributeToElement DowncastAttributeToElement
  | ConversionForUpcastElementToAttribute UpcastElementToAttribute
  | CommandsAdd string

subsection \<open>The editor configuration\<close>

text \<open>
  Modelled from the spec: \<^verbatim>\<open>Config.define\<close> and \<^verbatim>\<open>Config.get\<close> of the framework's
  configuration object are not among the sources. The spec calls the first
  "default-configuration registration": a default is stored for every key that the
  configuration given to the editor left undefined. The store holds the
  \<^verbatim>\<open>fontFamily\<close> part of the editor configuration.
\<close>

definition config_define ::
  "('v, 'p) FontFamilyConfig \<Rightarrow> ('v, 'p) FontFamilyConfig \<Rightarrow> ('v, 'p) FontFamilyConfig" where
  "config_define defaults cfg =
     \<lparr> options = (case options cfg of None \<Rightarrow> options defaults | Some xs \<Rightarrow> Some xs),
       supportAllValues =
         (case supportAllValues cfg of None \<Rightarrow> supportAllValues defaults | Some b \<Rightarrow> Some b) \<rparr>"

subsection \<open>FontFamilyEditing (fontfamilyediting.ts)\<close>

text \<open>The default configuration of the constructor, lines 40 to 53.\<close>

definition default_options :: "('v, 'p) ConfiguredOption list" where
  "default_options =
     [ OptionString ''default'',
       OptionString ''Arial, Helvetica, sans-serif'',
       OptionString ''Courier New, Courier, monospace'',
       OptionString ''Georgia, serif'',
       OptionString ''Lucida Sans Unicode, Lucida Grande, sans-serif'',
       OptionString ''Tahoma, Geneva, sans-serif'',
       OptionString ''Times New Roman, Times, serif'',
       OptionString ''Trebuchet MS, Helvetica, sans-serif'',
       OptionString ''Verdana, Geneva, sans-serif'' ]"

definition default_config :: "('v, 'p) FontFamilyConfig" where
  "default_config = \<lparr> options = Some default_options, supportAllValues = Some False \<rparr>"

text \<open>
  The constructor, lines 36 to 54: the configuration of the editor afterwards, and the
  calls made, \<^verbatim>\<open>super( editor )\<close> of line 37 and \<^verbatim>\<open>editor.config.define\<close> of line 40.
\<close>

definition constructor ::
  "('v, 'p) FontFamilyConfig \<Rightarrow> ('v, 'p) FontFamilyConfig \<times> ('v, 'p, 'd) Call list" where
  "constructor cfg =
     (config_define default_config cfg,
      [PluginConstructor, ConfigDefine FONT_FAMILY default_config])"

text \<open>
  The view callback of the downcast converter, lines 95 to 97.
\<close>

definition anyValueDowncastView :: "string \<Rightarrow> AttributeElement \<times> CallbackCall list" where
  "anyValueDowncastView attributeValue =
     (let element = \<lparr> ae_name = ''span'',
                       ae_attributes = [(''style'', ''font-family:'' @ attributeValue)],
                       ae_priority = 7 \<rparr>
      in (element, [WriterCreateAttributeElement element]))"

text \<open>The value callback of the upcast converter, line 103.\<close>

definition anyValueUpcastValue :: "ViewElement \<Rightarrow> string option \<times> CallbackCall list" where
  "anyValueUpcastValue viewElement =
     (getStyle viewElement ''font-family'', [ViewElementGetStyle ''font-family''])"

text \<open>The value callback of the compatibility converter, line 129.\<close>

definition compatibilityUpcastValue :: "ViewElement \<Rightarrow> string option \<times> CallbackCall list" where
  "compatibilityUpcastValue viewElement =
     (getAttribute viewElement ''face'', [ViewElementGetAttribute ''face''])"

definition prepareAnyValueConverters :: "('v, 'p, 'd) Call list" where
  "prepareAnyValueConverters =
     [ ConversionForDowncastAttributeToElement
         \<lparr> dc_model = FONT_FAMILY, dc_view = anyValueDowncastView \<rparr>,
       ConversionForUpcastElementToAttribute
         \<lparr> uc_model_key = FONT_FAMILY, uc_model_value = anyValueUpcastValue,
           uc_view_name = ''span'', uc_view_pattern = (Styles, ''font-family'') \<rparr> ]"

definition prepareCompatibilityConverter :: "('v, 'p, 'd) Call list" where
  "prepareCompatibilityConverter =
     [ ConversionForUpcastElementToAttribute
         \<lparr> uc_model_key = FONT_FAMILY, uc_model_value = compatibilityUpcastValue,
           uc_view_name = ''font'', uc_view_pattern = (Attributes, ''face'') \<rparr> ]"

text \<open>
  The local constant \<^verbatim>\<open>options\<close> of \<^verbatim>\<open>init\<close>, lines 70 to 72. \<^verbatim>\<open>normalizeOptions\<close> is
  imported from \<^verbatim>\<open>'./utils'\<close>, which is not among the sources: it is a parameter.
\<close>

definition init_options ::
  "(('v, 'p) ConfiguredOption list \<Rightarrow> ('v, 'p) FontFamilyOption list) \<Rightarrow>
   ('v, 'p) ConfiguredOption list \<Rightarrow> ('v, 'p) FontFamilyOption list" where
  "init_options normalizeOptions configured =
     filter (\<lambda>item. truthy_string (model item)) (normalizeOptions configured)"

text \<open>
  The local constant \<^verbatim>\<open>definition\<close> of \<^verbatim>\<open>init\<close>, line 73. \<^verbatim>\<open>buildDefinition\<close> is
  imported from \<^verbatim>\<open>'../utils'\<close> and is a parameter as well.
\<close>

definition init_definition ::
  "(('v, 'p) ConfiguredOption list \<Rightarrow> ('v, 'p) FontFamilyOption list) \<Rightarrow>
   (string \<Rightarrow> ('v, 'p) FontFamilyOption list \<Rightarrow> 'd) \<Rightarrow>
   ('v, 'p) ConfiguredOption list \<Rightarrow> 'd" where
  "init_definition normalizeOptions buildDefinition configured =
     buildDefinition FONT_FAMILY (init_options normalizeOptions configured)"

text \<open>
  \<^verbatim>\<open>init\<close>, lines 59 to 84: the calls it makes on an editor with the configuration
  \<open>cfg\<close>. Line 71 asserts that \<^verbatim>\<open>'fontFamily.options'\<close> is defined, which the
  constructor has seen to; a configuration without it is outside what \<^verbatim>\<open>init\<close> is
  written for, and is the error here. \<^verbatim>\<open>normalizeOptions\<close>, \<^verbatim>\<open>buildDefinition\<close> and
  \<^verbatim>\<open>new FontFamilyCommand( editor )\<close> are calls into this package, not into the
  framework, and are not in the list.
\<close>

datatype InitError = OptionsUndefined

definition init ::
  "(('v, 'p) ConfiguredOption list \<Rightarrow> ('v, 'p) FontFamilyOption list) \<Rightarrow>
   (string \<Rightarrow> ('v, 'p) FontFamilyOption list \<Rightarrow> 'd) \<Rightarrow>
   ('v, 'p) FontFamilyConfig \<Rightarrow> InitError + ('v, 'p, 'd) Call list" where
  "init normalizeOptions buildDefinition cfg =
     (case options cfg of
        None \<Rightarrow> Inl OptionsUndefined
      | Some configured \<Rightarrow>
          Inr ([ SchemaExtend ''$text'' FONT_FAMILY,
                 SchemaSetAttributeProperties FONT_FAMILY True True,
                 ConfigGet ''fontFamily.options'',
                 ConfigGet ''fontFamily.supportAllValues'' ]
               @ (if truthy_bool (supportAllValues cfg)
                  then prepareAnyValueConverters @ prepareCompatibilityConverter
                  else [ConversionAttributeToElement
                          (init_definition normalizeOptions buildDefinition configured)])
               @ [CommandsAdd FONT_FAMILY]))"

text \<open>
  Loading the plugin into an editor created with the configuration \<open>cfg\<close>: the
  constructor, then \<^verbatim>\<open>init\<close> on the configuration the constructor left.
\<close>

definition load ::
  "(('v, 'p) ConfiguredOption list \<Rightarrow> ('v, 'p) FontFamilyOption list) \<Rightarrow>
   (string \<Rightarrow> ('v, 'p) FontFamilyOption list \<Rightarrow> 'd) \<Rightarrow>
   ('v, 'p) FontFamilyConfig \<Rightarrow> InitError + ('v, 'p, 'd) Call list" where
  "load normalizeOptions buildDefinition cfg =
     (case constructor cfg of
        (cfg', calls) \<Rightarrow>
          (case init normalizeOptions buildDefinition cfg' of
             Inl e \<Rightarrow> Inl e
           | Inr calls' \<Rightarrow> Inr (calls @ calls')))"

subsection \<open>Reading the calls\<close>

text \<open>The configuration keys read by a list of calls, in order.\<close>

fun config_reads :: "('v, 'p, 'd) Call list \<Rightarrow> string list" where
  "config_reads [] = []"
| "config_reads (ConfigGet k # cs) = k # config_reads cs"
| "config_reads (_ # cs) = config_reads cs"

text \<open>The conversion registrations among a list of calls, in order.\<close>

fun is_conversion :: "('v, 'p, 'd) Call \<Rightarrow> bool" where
  "is_conversion (ConversionAttributeToElement _) = True"
| "is_conversion (ConversionForDowncastAttributeToElement _) = True"
| "is_conversion (ConversionForUpcastElementToAttribute _) = True"
| "is_conversion _ = False"

definition conversions :: "('v, 'p, 'd) Call list \<Rightarrow> ('v, 'p, 'd) Call list" where
  "conversions calls = filter is_conversion calls"

text \<open>The configuration keys a converter callback reads when it runs.\<close>

fun callback_config_reads :: "CallbackCall list \<Rightarrow> string list" where
  "callback_config_reads [] = []"
| "callback_config_reads (CallbackConfigGet k # cs) = k # callback_config_reads cs"
| "callback_config_reads (_ # cs) = callback_config_reads cs"

section \<open>The timestamp tutorial plugin (creating-simple-plugin-timestamp.md)\<close>

subsection \<open>The document model\<close>

text \<open>
  Modelled from the spec: the engine's document model, its live document selection and
  its writer are not among the sources. The spec says of the plugin that it "inserts the
  current time as text at the caret and deletes any selected range", and the tutorial
  that the selected fragment is removed and replaced with the timestamp. The model is
  the smallest one in which these words have a meaning: the document is a flat text,
  a position is an offset into it, a range is a pair of offsets (start, end), and the
  selection is a list of ranges that follow the text they select when the document
  changes.
\<close>

type_synonym Position = nat

type_synonym Range = "nat \<times> nat"

datatype WriterOp =
    InsertText string Position
  | Remove Range

text \<open>
  \<open>current\<close> holds the writer operations of the change block that is open,
  \<open>batches\<close> those of the change blocks that are complete, oldest first.
\<close>

record Model =
  document :: string
  selection :: "Range list"
  current :: "WriterOp list"
  batches :: "WriterOp list list"

text \<open>
  Modelled from the spec: \<^verbatim>\<open>selection.getFirstPosition()\<close>, the start that lies
  earliest in the document among the ranges of the selection, and \<^verbatim>\<open>null\<close> for a
  selection without ranges.
\<close>

definition getFirstPosition :: "Model \<Rightarrow> Position option" where
  "getFirstPosition m =
     (case selection m of
        [] \<Rightarrow> None
      | r # rs \<Rightarrow> Some (fold (\<lambda>r' p. min (fst r') p) rs (fst r)))"

text \<open>Modelled from the spec: \<^verbatim>\<open>selection.getRanges()\<close>, the ranges as they are now.\<close>

definition getRanges :: "Model \<Rightarrow> Range list" where
  "getRanges m = selection m"

text \<open>
  Modelled from the spec: how a range of the selection follows an insertion of \<open>n\<close>
  characters at \<open>p\<close>. A boundary behind \<open>p\<close> moves by \<open>n\<close>. The start of a range
  that selects something sticks to the character after it and its end to the character
  before it, so that an insertion at the start moves the range and an insertion at the
  end leaves it; a collapsed range at \<open>p\<close> moves behind the inserted text.
\<close>

definition range_after_insertion :: "Position \<Rightarrow> nat \<Rightarrow> Range \<Rightarrow> Range" where
  "range_after_insertion p n r =
     (case r of (s, e) \<Rightarrow>
        if s = e then (if p \<le> s then (s + n, e + n) else (s, e))
        else (if p \<le> s then s + n else s, if p < e then e + n else e))"

text \<open>
  Modelled from the spec: how a position follows the removal of the \<open>k\<close> characters
  from \<open>a\<close> on. A position in the removed text moves to \<open>a\<close>, one behind it moves
  by \<open>k\<close>.
\<close>

definition position_after_removal :: "Position \<Rightarrow> nat \<Rightarrow> Position \<Rightarrow> Position" where
  "position_after_removal a k q = (if q \<le> a then q else if q < a + k then a else q - k)"

definition range_after_removal :: "Position \<Rightarrow> nat \<Rightarrow> Range \<Rightarrow> Range" where
  "range_after_removal a k r =
     (case r of (s, e) \<Rightarrow> (position_after_removal a k s, position_after_removal a k e))"

text \<open>Modelled from the spec: \<^verbatim>\<open>writer.insertText( text, position )\<close>.\<close>

definition insertText :: "string \<Rightarrow> Position \<Rightarrow> Model \<Rightarrow> Model" where
  "insertText text p m =
     m \<lparr> document := take p (document m) @ text @ drop p (document m),
         selection := map (range_after_insertion p (length text)) (selection m),
         current := current m @ [InsertText text p] \<rparr>"

text \<open>Modelled from the spec: \<^verbatim>\<open>writer.remove( range )\<close>.\<close>

definition remove :: "Range \<Rightarrow> Model \<Rightarrow> Model" where
  "remove r m =
     (case r of (a, b) \<Rightarrow>
        m \<lparr> document := take a (document m) @ drop b (document m),
            selection := map (range_after_removal a (b - a)) (selection m),
            current := current m @ [Remove r] \<rparr>)"

text \<open>
  Modelled from the spec: \<^verbatim>\<open>model.change( callback )\<close> runs the callback in a change
  block of its own; the writer operations of the callback form one batch.
\<close>

definition change :: "(Model \<Rightarrow> 'e + Model) \<Rightarrow> Model \<Rightarrow> 'e + Model" where
  "change callback m =
     (case callback (m \<lparr> current := [] \<rparr>) of
        Inl e \<Rightarrow> Inl e
      | Inr m' \<Rightarrow> Inr (m' \<lparr> current := [], batches := batches m' @ [current m'] \<rparr>))"

subsection \<open>The plugin\<close>

text \<open>
  The loop of lines 248 to 250, one \<^verbatim>\<open>writer.remove\<close> for each range that
  \<^verbatim>\<open>selection.getRanges()\<close> hands out. Modelled from the spec: the ranges are handed out
  one by one from the live selection, so the range removed in a round is read after the
  writer operations of the rounds before it; \<open>i\<close> counts the ranges handed out so far.
\<close>

function removeRanges :: "nat \<Rightarrow> Model \<Rightarrow> Model" where
  "removeRanges i m =
     (if i < length (getRanges m)
      then removeRanges (Suc i) (remove (getRanges m ! i) m)
      else m)"
  by pat_completeness auto
termination
  by (relation "measure (\<lambda>(i, m). length (getRanges m) - i)")
     (auto simp: getRanges_def remove_def split: prod.splits)

declare removeRanges.simps [simp del]

text \<open>
  Modelled from the spec: \<^verbatim>\<open>insertText\<close> needs a position; given the \<^verbatim>\<open>null\<close> of a
  selection without ranges, the writer raises.
\<close>

datatype EngineError = PositionRequired

text \<open>
  The callback of \<^verbatim>\<open>button.on( 'execute', ... )\<close>, lines 241 to 252. \<open>now\<close> is the
  value of \<^verbatim>\<open>new Date()\<close>, and \<open>toString\<close> its rendering.
\<close>

definition execute :: "('date \<Rightarrow> string) \<Rightarrow> 'date \<Rightarrow> Model \<Rightarrow> EngineError + Model" where
  "execute toString now m =
     change
       (\<lambda>opened. case getFirstPosition opened of
                    None \<Rightarrow> Inl PositionRequired
                  | Some p \<Rightarrow> Inr (removeRanges 0 (insertText (toString now) p opened)))
       m"




subsection \<open>Creating the editor\<close>

text \<open>
  The four scripts of the tutorial end in
  \<^verbatim>\<open>ClassicEditor.create( ... ).then( ... ).catch( ... )\<close>. The promise of \<^verbatim>\<open>create\<close>
  is settled by the framework: resolved with the editor, or rejected with an error.
\<close>

record JsError =
  err_message :: string
  err_stack :: string

datatype 'ed Settled =
    Resolved 'ed
  | Rejected JsError

datatype 'ed LogArg =
    LogText string
  | LogEditor 'ed
  | LogError JsError

text \<open>What a handler of the scripts does.\<close>

datatype 'ed Action =
    ConsoleLog "'ed LogArg list"
  | ConsoleError "'ed LogArg list"
  | WindowEditorAssign 'ed

text \<open>
  \<^verbatim>\<open>promise.then( onFulfilled ).catch( onRejected )\<close>, for handlers that do not throw:
  a resolved promise runs the first, a rejected one skips it and runs the second.
\<close>

definition then_catch ::
  "('ed \<Rightarrow> 'ed Action list) \<Rightarrow> (JsError \<Rightarrow> 'ed Action list) \<Rightarrow> 'ed Settled \<Rightarrow> 'ed Action list" where
  "then_catch onFulfilled onRejected promise =
     (case promise of
        Resolved v \<Rightarrow> onFulfilled v
      | Rejected e \<Rightarrow> onRejected e)"

text \<open>
  The scripts: \<^verbatim>\<open>app.js\<close> (lines 33 to 43), "Creating a plugin" (lines 88 to 102),
  "Registering a toolbar button" (lines 138 to 154) and "Full code" (lines 259 to 269).
\<close>

datatype Script = AppJs | CreatingAPlugin | RegisteringAToolbarButton | FullCode

fun create_then_catch :: "Script \<Rightarrow> 'ed Settled \<Rightarrow> 'ed Action list" where
  "create_then_catch FullCode =
     then_catch (\<lambda>editor. [WindowEditorAssign editor])
                (\<lambda>err. [ConsoleError [LogError err]])"
| "create_then_catch _ =
     then_catch (\<lambda>editor. [ConsoleLog [LogText ''Editor was initialized'', LogEditor editor]])
                (\<lambda>error. [ConsoleError [LogText (err_stack error)]])"

section \<open>The plugins and the kinds of their calls\<close>









section \<open>Vocabulary for the properties\<close>

text \<open>The text that is left when the characters of a range are taken out.\<close>

definition without_range :: "Range \<Rightarrow> string \<Rightarrow> string" where
  "without_range r d = (case r of (a, b) \<Rightarrow> take a d @ drop b d)"

text \<open>The offset \<open>i\<close> of a character lies in the range \<open>r\<close>.\<close>

definition in_range :: "Range \<Rightarrow> nat \<Rightarrow> bool" where
  "in_range r i = (fst r \<le> i \<and> i < snd r)"

text \<open>The offset \<open>i\<close> lies in none of the ranges.\<close>

definition outside :: "Range list \<Rightarrow> nat \<Rightarrow> bool" where
  "outside rs i = list_all (\<lambda>r. \<not> in_range r i) rs"

text \<open>
  The ranges of a selection, in any order: every range ends where it starts or
  later, and no two of them overlap.
\<close>

fun disjoint_ranges :: "Range list \<Rightarrow> bool" where
  "disjoint_ranges [] = True"
| "disjoint_ranges (r # rs) =
     (fst r \<le> snd r \<and> list_all (\<lambda>r'. snd r' \<le> fst r \<or> snd r \<le> fst r') rs
      \<and> disjoint_ranges rs)"

text \<open>
  An editor state that the document selection of the engine can be in: the selection
  has a range, its ranges do not overlap, and they lie inside the document.
\<close>

definition well_formed :: "Model \<Rightarrow> bool" where
  "well_formed m =
     (selection m \<noteq> [] \<and> disjoint_ranges (selection m)
      \<and> list_all (\<lambda>r. snd r \<le> length (document m)) (selection m))"

text \<open>A range moved \<open>k\<close> characters towards the end of the document.\<close>

definition shift_right :: "nat \<Rightarrow> Range \<Rightarrow> Range" where
  "shift_right k r = (fst r + k, snd r + k)"

text \<open>
  The ranges that a loop over \<open>rs\<close> removes: each range as it is after the removal
  of the ranges before it.
\<close>

fun removed_ranges :: "Range list \<Rightarrow> Range list" where
  "removed_ranges [] = []"
| "removed_ranges (r # rs) =
     r # removed_ranges (map (range_after_removal (fst r) (snd r - fst r)) rs)"

definition range_length :: "Range \<Rightarrow> nat" where
  "range_length r = snd r - fst r"

section \<open>Properties of the font family feature\<close>

lemma config_define_default:
  "config_define default_config cfg =
     \<lparr> options = Some (case options cfg of None \<Rightarrow> default_options | Some xs \<Rightarrow> xs),
       supportAllValues = Some (truthy_bool (supportAllValues cfg)) \<rparr>"
  by (cases "options cfg"; cases "supportAllValues cfg")
     (simp_all add: config_define_def default_config_def)

lemma load_calls:
  "load normalizeOptions buildDefinition cfg =
     Inr ([ PluginConstructor,
            ConfigDefine FONT_FAMILY default_config,
            SchemaExtend ''$text'' FONT_FAMILY,
            SchemaSetAttributeProperties FONT_FAMILY True True,
            ConfigGet ''fontFamily.options'',
            ConfigGet ''fontFamily.supportAllValues'' ]
          @ (if truthy_bool (supportAllValues cfg)
             then prepareAnyValueConverters @ prepareCompatibilityConverter
             else [ConversionAttributeToElement
                     (init_definition normalizeOptions buildDefinition
                        (case options cfg of None \<Rightarrow> default_options | Some xs \<Rightarrow> xs))])
          @ [CommandsAdd FONT_FAMILY])"
  by (simp add: load_def constructor_def config_define_default init_def)

text \<open>
  C1, as the claim states it, fails: an option that the configuration gives without a
  model is not in the list handed to \<^verbatim>\<open>buildDefinition\<close>, whatever \<^verbatim>\<open>normalizeOptions\<close>
  does, so the list handed over is not the list that was configured. Nor is it for the
  default options: they are strings, and what is handed over are option objects.
\<close>

theorem init_options_not_unmodified:
  "\<forall>normalizeOptions.
     map OptionObject
       (init_options normalizeOptions
          [OptionObject \<lparr> title = ''Default'', model = None,
                          view = (None :: unit option), upcastAlso = (None :: unit list option) \<rparr>])
     \<noteq> [OptionObject \<lparr> title = ''Default'', model = None, view = None, upcastAlso = None \<rparr>]
     \<and> map OptionObject (init_options normalizeOptions default_options) \<noteq> default_options"
proof (intro allI conjI)
  fix normalizeOptions :: "(unit, unit) ConfiguredOption list \<Rightarrow> (unit, unit) FontFamilyOption list"
  let ?d = "\<lparr> title = ''Default'', model = None,
               view = (None :: unit option), upcastAlso = (None :: unit list option) \<rparr>"
  show "map OptionObject (init_options normalizeOptions [OptionObject ?d]) \<noteq> [OptionObject ?d]"
  proof
    assume "map OptionObject (init_options normalizeOptions [OptionObject ?d]) = [OptionObject ?d]"
    then have "init_options normalizeOptions [OptionObject ?d] = [?d]"
      by (auto simp: map_eq_Cons_conv)
    then have "?d \<in> set (init_options normalizeOptions [OptionObject ?d])"
      by simp
    then have "truthy_string (model ?d)"
      by (simp add: init_options_def)
    then show False by simp
  qed
  show "map OptionObject (init_options normalizeOptions default_options) \<noteq> default_options"
    by (auto simp: default_options_def map_eq_Cons_conv)
qed

text \<open>
  C1, amended: the list handed to \<^verbatim>\<open>buildDefinition\<close> in \<^verbatim>\<open>init\<close> is the configured list
  after \<^verbatim>\<open>normalizeOptions\<close>, filtered: it keeps every normalized item whose model is
  truthy, as often as it occurs, unaltered and in the order of the normalized list, and
  no item whose model is falsy. Nothing is removed exactly when every normalized item has
  a truthy model. With \<^verbatim>\<open>supportAllValues\<close> off, the one conversion that \<^verbatim>\<open>init\<close>
  registers is the definition built from this filtered list.
\<close>

theorem init_options_filtered:
  "init_options normalizeOptions configured
     = filter (\<lambda>item. truthy_string (model item)) (normalizeOptions configured)
   \<and> subseq (init_options normalizeOptions configured) (normalizeOptions configured)
   \<and> set (init_options normalizeOptions configured)
       = {item. item \<in> set (normalizeOptions configured) \<and> truthy_string (model item)}
   \<and> count_list (init_options normalizeOptions configured) item
       = (if truthy_string (model item) then count_list (normalizeOptions configured) item
          else 0)
   \<and> (init_options normalizeOptions configured = normalizeOptions configured)
       = list_all (\<lambda>item. truthy_string (model item)) (normalizeOptions configured)
   \<and> (\<exists>calls. init normalizeOptions buildDefinition
                  \<lparr> options = Some configured, supportAllValues = Some False \<rparr> = Inr calls
          \<and> conversions calls
              = [ConversionAttributeToElement
                   (buildDefinition FONT_FAMILY
                      (filter (\<lambda>item. truthy_string (model item))
                         (normalizeOptions configured)))])"
proof -
  have same: "(filter P xs = xs) = list_all P xs" for P and xs :: "'x list"
    by (simp add: filter_id_conv list_all_iff)
  have count: "count_list (filter P xs) x = (if P x then count_list xs x else 0)"
    for P and xs :: "'x list" and x
    by (induction xs) auto
  show ?thesis
    unfolding init_options_def same count
    by (auto simp: init_def conversions_def init_definition_def init_options_def)
qed

text \<open>
  C4: the constructor, after the constructor of the base class, registers under
  \<^verbatim>\<open>'fontFamily'\<close> the nine options
  \<^verbatim>\<open>'default'\<close> and the eight font families with \<^verbatim>\<open>supportAllValues\<close> false, whatever
  the editor configuration is. An editor whose configuration says nothing about font
  families has these as its configuration afterwards, and loading the plugin into it
  registers the definition built from the normalized nine options without the items whose
  model is falsy.
\<close>

theorem default_configuration:
  "(snd (constructor cfg) :: ('v, 'p, 'd) Call list)
     = [PluginConstructor,
        ConfigDefine ''fontFamily''
          \<lparr> options = Some
              [ OptionString ''default'',
                OptionString ''Arial, Helvetica, sans-serif'',
                OptionString ''Courier New, Courier, monospace'',
                OptionString ''Georgia, serif'',
                OptionString ''Lucida Sans Unicode, Lucida Grande, sans-serif'',
                OptionString ''Tahoma, Geneva, sans-serif'',
                OptionString ''Times New Roman, Times, serif'',
                OptionString ''Trebuchet MS, Helvetica, sans-serif'',
                OptionString ''Verdana, Geneva, sans-serif'' ],
             supportAllValues = Some False \<rparr>]
   \<and> length (default_options :: ('v, 'p) ConfiguredOption list) = 9
   \<and> fst (constructor \<lparr> options = None, supportAllValues = None \<rparr>
            :: ('v, 'p) FontFamilyConfig \<times> ('v, 'p, 'd) Call list)
       = \<lparr> options = Some default_options, supportAllValues = Some False \<rparr>
   \<and> (\<exists>calls. load normalizeOptions buildDefinition
                  \<lparr> options = None, supportAllValues = None \<rparr> = Inr calls
          \<and> conversions calls
              = [ConversionAttributeToElement
                   ((buildDefinition :: string \<Rightarrow> ('v, 'p) FontFamilyOption list \<Rightarrow> 'd) ''fontFamily''
                      (filter (\<lambda>item. truthy_string (model item))
                         (normalizeOptions
                            [ OptionString ''default'',
                              OptionString ''Arial, Helvetica, sans-serif'',
                              OptionString ''Courier New, Courier, monospace'',
                              OptionString ''Georgia, serif'',
                              OptionString ''Lucida Sans Unicode, Lucida Grande, sans-serif'',
                              OptionString ''Tahoma, Geneva, sans-serif'',
                              OptionString ''Times New Roman, Times, serif'',
                              OptionString ''Trebuchet MS, Helvetica, sans-serif'',
                              OptionString ''Verdana, Geneva, sans-serif'' ])))])"
proof -
  have "(snd (constructor cfg) :: ('v, 'p, 'd) Call list)
          = [PluginConstructor,
             ConfigDefine ''fontFamily''
               \<lparr> options = Some default_options, supportAllValues = Some False \<rparr>]"
    by (simp add: constructor_def default_config_def FONT_FAMILY_def)
  moreover have "length (default_options :: ('v, 'p) ConfiguredOption list) = 9"
    by (simp add: default_options_def)
  moreover have "fst (constructor \<lparr> options = None, supportAllValues = None \<rparr>
                        :: ('v, 'p) FontFamilyConfig \<times> ('v, 'p, 'd) Call list)
                   = \<lparr> options = Some default_options, supportAllValues = Some False \<rparr>"
    by (simp add: constructor_def config_define_def default_config_def)
  moreover have "\<exists>calls. load normalizeOptions buildDefinition
                          \<lparr> options = None, supportAllValues = None \<rparr> = Inr calls
          \<and> conversions calls
              = [ConversionAttributeToElement
                   ((buildDefinition :: string \<Rightarrow> ('v, 'p) FontFamilyOption list \<Rightarrow> 'd) ''fontFamily''
                      (filter (\<lambda>item. truthy_string (model item))
                         (normalizeOptions default_options)))]"
    unfolding load_calls
    by (simp add: conversions_def init_definition_def init_options_def FONT_FAMILY_def)
  ultimately show ?thesis
    unfolding default_options_def by blast
qed

text \<open>
  What the code at hand reads of the configuration: the constructor and \<^verbatim>\<open>init\<close>
  together read the two keys, once each, both in \<^verbatim>\<open>init\<close>; the three converter
  callbacks read nothing when they run.
\<close>

lemma load_config_reads:
  "\<exists>calls. load normalizeOptions buildDefinition cfg = Inr calls
     \<and> config_reads calls = [''fontFamily.options'', ''fontFamily.supportAllValues'']
     \<and> config_reads (snd (constructor cfg) :: ('v, 'p, 'd) Call list) = []"
  by (simp add: load_calls constructor_def prepareAnyValueConverters_def
        prepareCompatibilityConverter_def)

lemma callbacks_read_no_configuration:
  "callback_config_reads (snd (anyValueDowncastView v)) = []
   \<and> callback_config_reads (snd (anyValueUpcastValue e)) = []
   \<and> callback_config_reads (snd (compatibilityUpcastValue e)) = []"
  by (simp add: anyValueDowncastView_def anyValueUpcastValue_def
        compatibilityUpcastValue_def Let_def)

text \<open>
  C8: \<^verbatim>\<open>init\<close> registers one of two conversion setups. With \<^verbatim>\<open>supportAllValues\<close> truthy
  these are the any-value downcast converter, the any-value upcast converter and the
  upcast converter for \<^verbatim>\<open><font face>\<close>, and no declarative definition; all calls of
  \<^verbatim>\<open>init\<close> are then the same for any two configured option lists and any two helpers.
  With \<^verbatim>\<open>supportAllValues\<close> falsy it is the declarative definition alone.
\<close>

theorem conversion_setup:
  "(\<exists>calls. init normalizeOptions buildDefinition
               \<lparr> options = Some configured, supportAllValues = s \<rparr> = Inr calls
      \<and> conversions calls
          = (if truthy_bool s
             then [ ConversionForDowncastAttributeToElement
                      \<lparr> dc_model = ''fontFamily'', dc_view = anyValueDowncastView \<rparr>,
                    ConversionForUpcastElementToAttribute
                      \<lparr> uc_model_key = ''fontFamily'', uc_model_value = anyValueUpcastValue,
                        uc_view_name = ''span'', uc_view_pattern = (Styles, ''font-family'') \<rparr>,
                    ConversionForUpcastElementToAttribute
                      \<lparr> uc_model_key = ''fontFamily'', uc_model_value = compatibilityUpcastValue,
                        uc_view_name = ''font'', uc_view_pattern = (Attributes, ''face'') \<rparr> ]
             else [ConversionAttributeToElement
                     (buildDefinition ''fontFamily''
                        (init_options normalizeOptions configured))]))
   \<and> init normalizeOptions buildDefinition
        \<lparr> options = Some configured, supportAllValues = Some True \<rparr>
       = init normalizeOptions' buildDefinition'
           \<lparr> options = Some configured', supportAllValues = Some True \<rparr>"
  by (simp add: init_def conversions_def prepareAnyValueConverters_def
        prepareCompatibilityConverter_def init_definition_def FONT_FAMILY_def)

text \<open>
  C10: on a view element whose style \<^verbatim>\<open>font-family\<close> is \<open>V\<close>, the upcast callback gives
  the attribute value \<open>V\<close>; the downcast callback turns any value \<open>V\<close> into the attribute
  element \<^verbatim>\<open>span\<close> with the one attribute \<^verbatim>\<open>style\<close>, \<^verbatim>\<open>'font-family:'\<close> followed by \<open>V\<close>,
  and priority 7; so what follows \<^verbatim>\<open>'font-family:'\<close> in the style written for the upcast
  value is \<open>V\<close> again. With \<^verbatim>\<open>supportAllValues\<close> on, these two callbacks are the ones
  that \<^verbatim>\<open>init\<close> registers.
\<close>

theorem any_value_round_trip:
  "getStyle viewElement ''font-family'' = Some V \<Longrightarrow>
   fst (anyValueUpcastValue viewElement) = Some V
   \<and> fst (anyValueDowncastView V)
       = \<lparr> ae_name = ''span'', ae_attributes = [(''style'', ''font-family:'' @ V)],
           ae_priority = 7 \<rparr>
   \<and> (\<exists>v style. fst (anyValueUpcastValue viewElement) = Some v
          \<and> map_of (ae_attributes (fst (anyValueDowncastView v))) ''style'' = Some style
          \<and> take 12 style = ''font-family:'' \<and> drop 12 style = V)
   \<and> (\<exists>calls. init normalizeOptions buildDefinition
                  \<lparr> options = Some configured, supportAllValues = Some True \<rparr> = Inr calls
          \<and> ConversionForDowncastAttributeToElement
               \<lparr> dc_model = FONT_FAMILY, dc_view = anyValueDowncastView \<rparr> \<in> set calls
          \<and> ConversionForUpcastElementToAttribute
               \<lparr> uc_model_key = FONT_FAMILY, uc_model_value = anyValueUpcastValue,
                 uc_view_name = ''span'', uc_view_pattern = (Styles, ''font-family'') \<rparr>
             \<in> set calls)"
  by (simp add: anyValueUpcastValue_def anyValueDowncastView_def init_def
        prepareAnyValueConverters_def Let_def)

theorem any_value_round_trip_witness:
  "getStyle \<lparr> ve_name = ''span'', ve_attributes = Map.empty,
              ve_styles = [''font-family'' \<mapsto> ''Arial, sans-serif''] \<rparr> ''font-family''
     = Some ''Arial, sans-serif''
   \<and> fst (anyValueUpcastValue
            \<lparr> ve_name = ''span'', ve_attributes = Map.empty,
              ve_styles = [''font-family'' \<mapsto> ''Arial, sans-serif''] \<rparr>)
       = Some ''Arial, sans-serif''
   \<and> fst (anyValueDowncastView ''Arial, sans-serif'')
       = \<lparr> ae_name = ''span'',
           ae_attributes = [(''style'', ''font-family:Arial, sans-serif'')],
           ae_priority = 7 \<rparr>"
proof -
  let ?e = "\<lparr> ve_name = ''span'', ve_attributes = Map.empty,
               ve_styles = [''font-family'' \<mapsto> ''Arial, sans-serif''] \<rparr>"
  have h: "getStyle ?e ''font-family'' = Some ''Arial, sans-serif''"
    by (simp add: getStyle_def)
  note r = any_value_round_trip [OF h]
  from r [THEN conjunct1] r [THEN conjunct2, THEN conjunct1] h show ?thesis
    by simp
qed

section \<open>Properties of the timestamp plugin\<close>

subsection \<open>Removing a range\<close>

lemma outside_Cons: "outside (r # rs) i = (\<not> in_range r i \<and> outside rs i)"
  by (simp add: outside_def)

lemma nths_cong_index:
  assumes "\<And>i. i < length xs \<Longrightarrow> (i \<in> A) = (i \<in> B)"
  shows "nths xs A = nths xs B"
proof -
  have "filter (\<lambda>p. snd p \<in> A) (zip xs [0..<length xs])
          = filter (\<lambda>p. snd p \<in> B) (zip xs [0..<length xs])"
    by (rule filter_cong [OF refl]) (auto simp: assms dest!: set_zip_rightD)
  then show ?thesis by (simp add: nths_def)
qed

lemma nths_none:
  assumes "\<And>i. i < length xs \<Longrightarrow> i \<notin> I"
  shows "nths xs I = []"
proof -
  have "set (nths xs I) = {}"
    using assms by (auto simp: set_nths)
  then show ?thesis by simp
qed

lemma disjoint_ranges_ordered:
  "disjoint_ranges rs \<Longrightarrow> list_all (\<lambda>r. fst r \<le> snd r) rs"
  by (induction rs) auto

lemma range_after_removal_before:
  "b \<le> s \<Longrightarrow> a \<le> b \<Longrightarrow> range_after_removal s k (a, b) = (a, b)"
  by (simp add: range_after_removal_def position_after_removal_def)

lemma range_after_removal_behind:
  "s \<le> e \<Longrightarrow> e \<le> a \<Longrightarrow> a \<le> b \<Longrightarrow>
   range_after_removal s (e - s) (a, b) = (a - (e - s), b - (e - s))"
  by (auto simp: range_after_removal_def position_after_removal_def)

lemma outside_after_removal:
  assumes "s \<le> e"
    and "list_all (\<lambda>r. fst r \<le> snd r \<and> (snd r \<le> s \<or> e \<le> fst r)) rs"
  shows "outside (map (range_after_removal s (e - s)) rs) i
           = outside rs (if i < s then i else i + (e - s))"
  using assms(2)
proof (induction rs)
  case Nil
  then show ?case by (simp add: outside_def)
next
  case (Cons r rs)
  obtain a b where r: "r = (a, b)" by (cases r)
  from Cons.prems r have ab: "a \<le> b" "b \<le> s \<or> e \<le> a"
    and rest: "list_all (\<lambda>r. fst r \<le> snd r \<and> (snd r \<le> s \<or> e \<le> fst r)) rs"
    by simp_all
  have IH: "outside (map (range_after_removal s (e - s)) rs) i
           = outside rs (if i < s then i else i + (e - s))"
    by (rule Cons.IH [OF rest])
  have one: "in_range (range_after_removal s (e - s) (a, b)) i
          = in_range (a, b) (if i < s then i else i + (e - s))"
  proof (cases "b \<le> s")
    case True
    then show ?thesis using ab assms(1)
      by (auto simp: range_after_removal_before in_range_def)
  next
    case False
    with ab have "e \<le> a" by simp
    then show ?thesis using ab assms(1)
      by (auto simp: range_after_removal_behind in_range_def)
  qed
  show ?case
    using IH one by (simp add: outside_def r)
qed

lemma nths_without_range:
  assumes "s \<le> e" "e \<le> length d"
    and "list_all (\<lambda>r. fst r \<le> snd r \<and> (snd r \<le> s \<or> e \<le> fst r)) rs"
  shows "nths (without_range (s, e) d) {i. outside (map (range_after_removal s (e - s)) rs) i}
           = nths d {i. outside ((s, e) # rs) i}"
proof -
  let ?A = "take s d" and ?S = "take (e - s) (drop s d)" and ?T = "drop e d"
  let ?rs' = "map (range_after_removal s (e - s)) rs"
  have lA: "length ?A = s" and lS: "length ?S = e - s"
    using assms(1,2) by simp_all
  have split: "d = ?A @ ?S @ ?T"
    using assms(1) by (metis add_diff_cancel_left' append_take_drop_id drop_drop le_Suc_ex add.commute)
  have out: "outside ?rs' i = outside rs (if i < s then i else i + (e - s))" for i
    by (rule outside_after_removal [OF assms(1,3)])
  have o1: "outside ?rs' i = outside ((s, e) # rs) i" if "i < s" for i
    using that by (simp add: out outside_Cons in_range_def)
  have o2: "outside ?rs' (j + s) = outside ((s, e) # rs) (j + (e - s) + s)" for j
    using assms(1) by (simp add: out outside_Cons in_range_def)
  have o3: "\<not> outside ((s, e) # rs) (j + s)" if "j < e - s" for j
    using that by (auto simp: outside_Cons in_range_def)
  have l1: "nths ?A {i. outside ?rs' i} = nths ?A {i. outside ((s, e) # rs) i}"
    by (rule nths_cong_index) (simp add: o1)
  have l2: "nths ?T {j. j + s \<in> {i. outside ?rs' i}}
              = nths ?T {j. j + (e - s) \<in> {j. j + s \<in> {i. outside ((s, e) # rs) i}}}"
    by (rule nths_cong_index) (simp add: o2)
  have l3: "nths ?S {j. j + s \<in> {i. outside ((s, e) # rs) i}} = []"
    by (rule nths_none) (simp add: o3)
  have "nths (without_range (s, e) d) {i. outside ?rs' i} = nths (?A @ ?T) {i. outside ?rs' i}"
    by (simp add: without_range_def)
  also have "\<dots> = nths ?A {i. outside ((s, e) # rs) i}
                  @ nths ?T {j. j + (e - s) \<in> {j. j + s \<in> {i. outside ((s, e) # rs) i}}}"
    by (simp only: nths_append lA l1 l2)
  also have "\<dots> = nths (?A @ ?S @ ?T) {i. outside ((s, e) # rs) i}"
    by (simp only: nths_append lA lS l3 append_Nil)
  finally show ?thesis using split by simp
qed

lemma disjoint_ranges_Cons:
  assumes "disjoint_ranges ((s, e) # rs)"
  shows "s \<le> e" "disjoint_ranges rs"
        "list_all (\<lambda>r. fst r \<le> snd r \<and> (snd r \<le> s \<or> e \<le> fst r)) rs"
  using assms disjoint_ranges_ordered [of rs] by (auto simp: list_all_iff)

lemma disjoint_ranges_mono_map:
  assumes "\<And>q q'. q \<le> q' \<Longrightarrow> f q \<le> (f q' :: nat)"
  shows "disjoint_ranges rs \<Longrightarrow> disjoint_ranges (map (\<lambda>r. (f (fst r), f (snd r))) rs)"
  by (induction rs) (auto simp: list_all_iff assms)

lemma position_after_removal_mono:
  "q \<le> q' \<Longrightarrow> position_after_removal a k q \<le> position_after_removal a k q'"
  by (auto simp: position_after_removal_def)

lemma range_after_removal_components:
  "range_after_removal a k = (\<lambda>r. (position_after_removal a k (fst r), position_after_removal a k (snd r)))"
  by (auto simp: range_after_removal_def split: prod.splits)

lemma disjoint_ranges_after_removal:
  "disjoint_ranges rs \<Longrightarrow> disjoint_ranges (map (range_after_removal a k) rs)"
  unfolding range_after_removal_components
  by (rule disjoint_ranges_mono_map) (rule position_after_removal_mono)

lemma disjoint_ranges_shift_right:
  "disjoint_ranges rs \<Longrightarrow> disjoint_ranges (map (shift_right n) rs)"
  unfolding shift_right_def
  by (rule disjoint_ranges_mono_map [where f = "\<lambda>q. q + n"]) simp

lemma bounds_after_removal:
  assumes "s \<le> e" "e \<le> length d" "list_all (\<lambda>r. snd r \<le> length d) rs"
  shows "list_all (\<lambda>r. snd r \<le> length (without_range (s, e) d))
           (map (range_after_removal s (e - s)) rs)"
  using assms
  by (auto simp: list_all_iff without_range_def range_after_removal_def
        position_after_removal_def split: prod.splits)

lemma range_after_removal_collapsed:
  "fst r = snd r \<Longrightarrow> fst (range_after_removal a k r) = snd (range_after_removal a k r)"
  by (cases r) (simp add: range_after_removal_def)

lemma range_after_removal_self:
  "s \<le> e \<Longrightarrow> range_after_removal s (e - s) (s, e) = (s, s)"
  by (auto simp: range_after_removal_def position_after_removal_def)

lemma removeRanges_loop:
  assumes "selection m = pre @ post" "length pre = i" "disjoint_ranges post"
          "list_all (\<lambda>r. snd r \<le> length (document m)) post"
          "list_all (\<lambda>r. fst r = snd r) pre"
  shows "document (removeRanges i m) = nths (document m) {j. outside post j}
         \<and> current (removeRanges i m) = current m @ map Remove (removed_ranges post)
         \<and> batches (removeRanges i m) = batches m
         \<and> length (selection (removeRanges i m)) = length (selection m)
         \<and> list_all (\<lambda>r. fst r = snd r) (selection (removeRanges i m))"
  using assms
proof (induction "length post" arbitrary: m pre i post)
  case 0
  then have "removeRanges i m = m"
    by (simp add: removeRanges.simps [of i m] getRanges_def)
  with 0 show ?case by (simp add: outside_def nths_all)
next
  case (Suc n)
  then obtain s e rest where post: "post = (s, e) # rest" and n: "n = length rest"
    by (cases post) auto
  note dis = disjoint_ranges_Cons [OF Suc.prems(3) [unfolded post]]
  from Suc.prems(4) post have e: "e \<le> length (document m)"
    and bounds: "list_all (\<lambda>r. snd r \<le> length (document m)) rest" by simp_all
  let ?f = "range_after_removal s (e - s)"
  let ?m = "remove (s, e) m"
  have at_i: "getRanges m ! i = (s, e)" and lt: "i < length (getRanges m)"
    using Suc.prems(1,2) by (simp_all add: getRanges_def nth_append post)
  have step: "removeRanges i m = removeRanges (Suc i) ?m"
    using at_i lt by (simp add: removeRanges.simps [of i m])
  have sel: "selection ?m = (map ?f pre @ [(s, s)]) @ map ?f rest"
    using Suc.prems(1) dis(1)
    by (simp add: remove_def post range_after_removal_self)
  have doc: "document ?m = without_range (s, e) (document m)"
    and cur: "current ?m = current m @ [Remove (s, e)]"
    and bat: "batches ?m = batches m"
    and len: "length (selection ?m) = length (selection m)"
    by (simp_all add: remove_def without_range_def)
  have pre': "list_all (\<lambda>r. fst r = snd r) (map ?f pre @ [(s, s)])"
    using Suc.prems(5) by (simp add: list_all_iff range_after_removal_collapsed)
  have bounds': "list_all (\<lambda>r. snd r \<le> length (document ?m)) (map ?f rest)"
    unfolding doc by (rule bounds_after_removal [OF dis(1) e bounds])
  have IH: "document (removeRanges (Suc i) ?m) = nths (document ?m) {j. outside (map ?f rest) j}
         \<and> current (removeRanges (Suc i) ?m) = current ?m @ map Remove (removed_ranges (map ?f rest))
         \<and> batches (removeRanges (Suc i) ?m) = batches ?m
         \<and> length (selection (removeRanges (Suc i) ?m)) = length (selection ?m)
         \<and> list_all (\<lambda>r. fst r = snd r) (selection (removeRanges (Suc i) ?m))"
    by (rule Suc.hyps(1) [OF _ sel _ disjoint_ranges_after_removal [OF dis(2)] bounds' pre'])
       (simp_all add: n Suc.prems(2))
  have "nths (document ?m) {j. outside (map ?f rest) j} = nths (document m) {j. outside post j}"
    unfolding doc post by (rule nths_without_range [OF dis(1) e dis(3)])
  with IH show ?case
    by (simp add: step cur bat len post)
qed

lemma fold_min_least:
  fixes x :: nat
  shows "fold (\<lambda>r' p. min (fst r') p) rs x \<le> x
         \<and> list_all (\<lambda>r. fold (\<lambda>r' p. min (fst r') p) rs x \<le> fst r) rs
         \<and> (fold (\<lambda>r' p. min (fst r') p) rs x = x
              \<or> fold (\<lambda>r' p. min (fst r') p) rs x \<in> fst ` set rs)"
proof (induction rs arbitrary: x)
  case Nil
  then show ?case by simp
next
  case (Cons r rs)
  from Cons.IH [of "min (fst r) x"] show ?case
    by (auto simp: list_all_iff min_def split: if_splits)
qed

lemma getFirstPosition_least:
  assumes "selection m \<noteq> []"
  shows "\<exists>p. getFirstPosition m = Some p
           \<and> list_all (\<lambda>r. p \<le> fst r) (selection m)
           \<and> p \<in> fst ` set (selection m)"
proof -
  from assms obtain r rs where sel: "selection m = r # rs"
    by (cases "selection m") auto
  show ?thesis
    using fold_min_least [of rs "fst r"]
    by (auto simp: getFirstPosition_def sel list_all_iff)
qed

lemma range_after_insertion_shift:
  "list_all (\<lambda>r. p \<le> fst r \<and> fst r \<le> snd r) rs \<Longrightarrow>
   map (range_after_insertion p n) rs = map (shift_right n) rs"
  by (induction rs) (auto simp: range_after_insertion_def shift_right_def split: prod.splits)

lemma outside_shift_right:
  "outside (map (shift_right n) rs) (j + n) = outside rs j"
  by (induction rs) (auto simp: outside_def in_range_def shift_right_def)

lemma outside_before:
  "list_all (\<lambda>r. i < fst r) rs \<Longrightarrow> outside rs i"
  by (induction rs) (auto simp: outside_def in_range_def)

lemma execute_result:
  fixes toString :: "'date \<Rightarrow> string" and now :: 'date and m :: Model
  assumes wf: "well_formed m"
  defines "ts \<equiv> toString now"
  shows "\<exists>p m'. getFirstPosition m = Some p \<and> execute toString now m = Inr m'
           \<and> document m' = take p (document m) @ ts
                             @ drop p (nths (document m) {i. outside (selection m) i})
           \<and> take p (nths (document m) {i. outside (selection m) i}) = take p (document m)
           \<and> batches m' = batches m
                 @ [InsertText ts p
                    # map Remove (removed_ranges (map (shift_right (length ts)) (selection m)))]
           \<and> current m' = []
           \<and> length (selection m') = length (selection m)
           \<and> list_all (\<lambda>r. fst r = snd r) (selection m')"
proof -
  let ?d = "document m" and ?n = "length ts" and ?sel = "selection m"
  from wf have ne: "?sel \<noteq> []" and dis: "disjoint_ranges ?sel"
    and bounds: "list_all (\<lambda>r. snd r \<le> length ?d) ?sel"
    by (simp_all add: well_formed_def)
  from getFirstPosition_least [OF ne] obtain p where
    first: "getFirstPosition m = Some p" and least: "list_all (\<lambda>r. p \<le> fst r) ?sel"
    and p_in: "p \<in> fst ` set ?sel" by blast
  have ordered: "list_all (\<lambda>r. fst r \<le> snd r) ?sel"
    by (rule disjoint_ranges_ordered [OF dis])
  have p_le: "p \<le> length ?d"
    using p_in bounds ordered by (auto simp: list_all_iff intro: order_trans)
  have from_p: "list_all (\<lambda>r. p \<le> fst r \<and> fst r \<le> snd r) ?sel"
    using least ordered by (auto simp: list_all_iff)
  let ?m0 = "m \<lparr> current := [] \<rparr>"
  let ?m1 = "insertText ts p ?m0"
  let ?sel1 = "map (shift_right ?n) ?sel"
  let ?d1 = "take p ?d @ ts @ drop p ?d"
  have first0: "getFirstPosition ?m0 = Some p"
    using first by (simp add: getFirstPosition_def)
  have sel1: "selection ?m1 = [] @ ?sel1"
    using range_after_insertion_shift [OF from_p, of ?n]
    by (simp add: insertText_def)
  have doc1: "document ?m1 = ?d1"
    and cur1: "current ?m1 = [InsertText ts p]"
    and bat1: "batches ?m1 = batches m"
    by (simp_all add: insertText_def)
  have bounds1: "list_all (\<lambda>r. snd r \<le> length (document ?m1)) ?sel1"
    using bounds p_le by (auto simp: doc1 list_all_iff shift_right_def)
  have loop: "document (removeRanges 0 ?m1) = nths (document ?m1) {j. outside ?sel1 j}
         \<and> current (removeRanges 0 ?m1) = current ?m1 @ map Remove (removed_ranges ?sel1)
         \<and> batches (removeRanges 0 ?m1) = batches ?m1
         \<and> length (selection (removeRanges 0 ?m1)) = length (selection ?m1)
         \<and> list_all (\<lambda>r. fst r = snd r) (selection (removeRanges 0 ?m1))"
    by (rule removeRanges_loop [OF sel1 _ disjoint_ranges_shift_right [OF dis] bounds1]) simp_all
  have lp: "length (take p ?d) = p" using p_le by simp
  have o1: "outside ?sel1 i" if "i < p + ?n" for i
    using least that by (intro outside_before) (auto simp: list_all_iff shift_right_def)
  have o0: "outside ?sel i" if "i < p" for i
    using least that by (intro outside_before) (auto simp: list_all_iff)
  have k1: "nths (take p ?d) {j. outside ?sel1 j} = take p ?d"
    by (rule nths_all) (simp add: o1)
  have k2: "nths ts {j. j + p \<in> {j. outside ?sel1 j}} = ts"
    by (rule nths_all) (simp add: o1)
  have k3: "nths (drop p ?d) {j. j + ?n \<in> {j. j + p \<in> {j. outside ?sel1 j}}}
              = nths (drop p ?d) {j. j + p \<in> {j. outside ?sel j}}"
  proof (rule nths_cong_index)
    fix i
    have "outside ?sel1 (i + ?n + p) = outside ?sel (i + p)"
      using outside_shift_right [of ?n ?sel "i + p"] by (simp add: add.commute add.left_commute)
    then show "(i \<in> {j. j + ?n \<in> {j. j + p \<in> {j. outside ?sel1 j}}})
                = (i \<in> {j. j + p \<in> {j. outside ?sel j}})" by simp
  qed
  have k0: "nths (take p ?d) {j. outside ?sel j} = take p ?d"
    by (rule nths_all) (simp add: o0)
  have "nths ?d {j. outside ?sel j} = nths (take p ?d @ drop p ?d) {j. outside ?sel j}"
    by simp
  also have "\<dots> = take p ?d @ nths (drop p ?d) {j. j + p \<in> {j. outside ?sel j}}"
    by (simp only: nths_append lp k0)
  finally have kept: "nths ?d {j. outside ?sel j}
                        = take p ?d @ nths (drop p ?d) {j. j + p \<in> {j. outside ?sel j}}" .
  have kept_drop: "drop p (nths ?d {j. outside ?sel j})
                        = nths (drop p ?d) {j. j + p \<in> {j. outside ?sel j}}"
    and kept_take: "take p (nths ?d {j. outside ?sel j}) = take p ?d"
    unfolding kept using lp by simp_all
  have final: "nths ?d1 {j. outside ?sel1 j}
                 = take p ?d @ ts @ drop p (nths ?d {j. outside ?sel j})"
    by (simp only: nths_append lp k1 k2 k3 kept_drop)
  define mL where "mL = removeRanges 0 ?m1"
  have exec: "execute toString now m
          = Inr (mL \<lparr> current := [], batches := batches mL @ [current mL] \<rparr>)"
    by (simp add: execute_def change_def first0 ts_def mL_def)
  have L1: "document mL = take p ?d @ ts @ drop p (nths ?d {i. outside ?sel i})"
    using loop by (simp only: mL_def doc1 final)
  have L2: "current mL = InsertText ts p # map Remove (removed_ranges ?sel1)"
    using loop by (simp only: mL_def cur1 append_Cons append_Nil)
  have L3: "batches mL = batches m"
    using loop by (simp only: mL_def bat1)
  have L4: "length (selection mL) = length ?sel"
    using loop sel1 by (simp only: mL_def append_Nil length_map)
  have L5: "list_all (\<lambda>r. fst r = snd r) (selection mL)"
    using loop by (simp only: mL_def)
  show ?thesis
    unfolding exec using first L1 L2 L3 L4 L5 kept_take by simp
qed

lemma removed_ranges_lengths:
  "disjoint_ranges rs \<Longrightarrow> map range_length (removed_ranges rs) = map range_length rs"
proof (induction "length rs" arbitrary: rs)
  case 0
  then show ?case by simp
next
  case (Suc n)
  then obtain s e rest where rs: "rs = (s, e) # rest" and n: "n = length rest"
    by (cases rs) auto
  note dis = disjoint_ranges_Cons [OF Suc.prems [unfolded rs]]
  let ?f = "range_after_removal s (e - s)"
  have same: "map range_length (map ?f rest) = map range_length rest"
    using dis(3)
  proof (induction rest)
    case Nil
    then show ?case by simp
  next
    case (Cons r rest)
    obtain a b where r: "r = (a, b)" by (cases r)
    from Cons.prems r have ab: "a \<le> b" "b \<le> s \<or> e \<le> a" by simp_all
    have "range_length (?f (a, b)) = range_length (a, b)"
    proof (cases "b \<le> s")
      case True
      then show ?thesis using ab by (simp add: range_after_removal_before)
    next
      case False
      with ab have "e \<le> a" by simp
      then show ?thesis
        using ab dis(1) by (simp add: range_after_removal_behind range_length_def)
    qed
    with Cons show ?case by (simp add: r)
  qed
  have "map range_length (removed_ranges (map ?f rest)) = map range_length (map ?f rest)"
    by (rule Suc.hyps(1) [OF _ disjoint_ranges_after_removal [OF dis(2)]]) (simp add: n)
  with same show ?case by (simp add: rs)
qed

subsection \<open>The claims about the execute callback\<close>

text \<open>
  C2: in every well-formed editor state, executing the button succeeds, and the document
  afterwards is the document before with the rendering of \<open>now\<close> inserted at the first
  position of the selection and with every character of every range of the selection
  taken out; no range of the selection selects anything afterwards.
\<close>

theorem execute_inserts_and_removes:
  fixes toString :: "'date \<Rightarrow> string" and now :: 'date and m :: Model
  assumes "well_formed m"
  shows "\<exists>p m'. getFirstPosition m = Some p \<and> execute toString now m = Inr m'
           \<and> document m' = take p (document m) @ toString now
                             @ drop p (nths (document m) {i. outside (selection m) i})
           \<and> length (selection m') = length (selection m)
           \<and> list_all (\<lambda>r. fst r = snd r) (selection m')"
  using execute_result [OF assms, of toString now] by blast

theorem execute_inserts_and_removes_witness:
  "well_formed \<lparr> document = ''abcdefgh'', selection = [(5, 6), (1, 3)],
                 current = [], batches = [] \<rparr>
   \<and> (\<exists>m'. execute (\<lambda>u :: unit. ''NOW'') ()
               \<lparr> document = ''abcdefgh'', selection = [(5, 6), (1, 3)],
                 current = [], batches = [] \<rparr> = Inr m'
          \<and> document m' = ''aNOWdegh''
          \<and> list_all (\<lambda>r. fst r = snd r) (selection m'))"
proof -
  let ?m = "\<lparr> document = ''abcdefgh'', selection = [(5, 6), (1, 3)],
               current = [], batches = [] \<rparr>"
  have wf: "well_formed ?m"
    by (simp add: well_formed_def)
  have first: "getFirstPosition ?m = Some 1"
    by (simp add: getFirstPosition_def)
  have kept: "nths ''abcdefgh'' {i. outside [(5, 6), (1, 3)] i} = ''adegh''"
    by (simp add: nths_Cons outside_def in_range_def)
  from execute_inserts_and_removes [OF wf, of "\<lambda>u. ''NOW''" "()"] obtain p m'
    where fp: "getFirstPosition ?m = Some p"
      and exec: "execute (\<lambda>u :: unit. ''NOW'') () ?m = Inr m'"
      and doc: "document m' = take p (document ?m) @ ''NOW''
                           @ drop p (nths (document ?m) {i. outside (selection ?m) i})"
      and collapsed: "list_all (\<lambda>r. fst r = snd r) (selection m')"
    by blast
  from fp first have p: "p = 1" by simp
  have "document m' = ''aNOWdegh''"
    using doc kept unfolding p by simp
  with wf exec collapsed show ?thesis
    by blast
qed

text \<open>
  C9: in every well-formed editor state, executing the button adds one change block;
  its first writer operation inserts the rendering of \<open>now\<close> at the first position of the
  selection, which lies at or before the start of every range, and the operations after
  it are the removals, one for each range of the selection, in the order of the selection
  and each of the length of its range. In the document afterwards the inserted text
  stands at that position, and the text around it is the document before without the
  characters of the ranges: every other character is kept, in order.
\<close>

theorem execute_change_block_frame:
  fixes toString :: "'date \<Rightarrow> string" and now :: 'date and m :: Model
  assumes "well_formed m"
  shows "\<exists>p m' removed. getFirstPosition m = Some p \<and> execute toString now m = Inr m'
           \<and> batches m' = batches m @ [InsertText (toString now) p # map Remove removed]
           \<and> current m' = []
           \<and> list_all (\<lambda>r. p \<le> fst r) (selection m)
           \<and> map range_length removed = map range_length (selection m)
           \<and> take (length (toString now)) (drop p (document m')) = toString now
           \<and> take p (document m') = take p (document m)
           \<and> take p (document m') @ drop (p + length (toString now)) (document m')
               = nths (document m) {i. outside (selection m) i}"
proof -
  let ?ts = "toString now"
  let ?kept = "nths (document m) {i. outside (selection m) i}"
  from execute_result [OF assms, of toString now] obtain p m' where
    first: "getFirstPosition m = Some p" and exec: "execute toString now m = Inr m'"
    and doc: "document m' = take p (document m) @ ?ts @ drop p ?kept"
    and kept: "take p ?kept = take p (document m)"
    and bat: "batches m' = batches m
                @ [InsertText ?ts p
                   # map Remove (removed_ranges (map (shift_right (length ?ts)) (selection m)))]"
    and cur: "current m' = []"
    by blast
  from assms have ne: "selection m \<noteq> []" and dis: "disjoint_ranges (selection m)"
    and bounds: "list_all (\<lambda>r. snd r \<le> length (document m)) (selection m)"
    by (simp_all add: well_formed_def)
  from getFirstPosition_least [OF ne] first
  have least: "list_all (\<lambda>r. p \<le> fst r) (selection m)"
    and p_in: "p \<in> fst ` set (selection m)" by auto
  have "p \<le> length (document m)"
    using p_in bounds disjoint_ranges_ordered [OF dis]
    by (auto simp: list_all_iff intro: order_trans)
  then have lp: "length (take p (document m)) = p" by simp
  have lens: "map range_length (removed_ranges (map (shift_right (length ?ts)) (selection m)))
                = map range_length (selection m)"
    using removed_ranges_lengths [OF disjoint_ranges_shift_right [OF dis, of "length ?ts"]]
    by (simp add: range_length_def shift_right_def comp_def)
  have t1: "take (length ?ts) (drop p (document m')) = ?ts"
    unfolding doc using lp by simp
  have t2: "take p (document m') = take p (document m)"
    unfolding doc using lp by simp
  have t3: "drop (p + length ?ts) (document m') = drop p ?kept"
    unfolding doc using lp by simp
  have t4: "take p (document m') @ drop (p + length ?ts) (document m') = ?kept"
    unfolding t2 t3 kept [symmetric] by simp
  show ?thesis
    using first exec bat cur least lens t1 t2 t4 by blast
qed

theorem execute_change_block_frame_witness:
  "well_formed \<lparr> document = ''hello world'', selection = [(0, 5)],
                 current = [], batches = [] \<rparr>
   \<and> (\<exists>m' removed. execute (\<lambda>u :: unit. ''NOW'') ()
               \<lparr> document = ''hello world'', selection = [(0, 5)],
                 current = [], batches = [] \<rparr> = Inr m'
          \<and> batches m' = [InsertText ''NOW'' 0 # map Remove removed]
          \<and> map range_length removed = [5]
          \<and> take 3 (document m') = ''NOW''
          \<and> drop 3 (document m') = '' world'')"
proof -
  let ?m = "\<lparr> document = ''hello world'', selection = [(0, 5)],
               current = [], batches = [] \<rparr>"
  have wf: "well_formed ?m"
    by (simp add: well_formed_def)
  have first: "getFirstPosition ?m = Some 0"
    by (simp add: getFirstPosition_def)
  have kept: "nths ''hello world'' {i. outside [(0, 5)] i} = '' world''"
    by (simp add: nths_Cons outside_def in_range_def)
  from execute_change_block_frame [OF wf, of "\<lambda>u. ''NOW''" "()"] obtain p m' removed
    where fp: "getFirstPosition ?m = Some p"
      and exec: "execute (\<lambda>u :: unit. ''NOW'') () ?m = Inr m'"
      and bat: "batches m' = batches ?m @ [InsertText ''NOW'' p # map Remove removed]"
      and lens: "map range_length removed = map range_length (selection ?m)"
      and ins: "take (length ''NOW'') (drop p (document m')) = ''NOW''"
      and frame: "take p (document m') @ drop (p + length ''NOW'') (document m')
             = nths (document ?m) {i. outside (selection ?m) i}"
    by blast
  from fp first have p: "p = 0" by simp
  have b: "batches m' = [InsertText ''NOW'' 0 # map Remove removed]"
    using bat unfolding p by simp
  have l: "map range_length removed = [5]"
    using lens by (simp add: range_length_def)
  have three: "length ''NOW'' = 3" by simp
  have i: "take 3 (document m') = ''NOW''"
    using ins unfolding p three by simp
  have f: "drop 3 (document m') = '' world''"
    using frame kept unfolding p three by simp
  from exec b l i f
  have "\<exists>m' removed. execute (\<lambda>u :: unit. ''NOW'') () ?m = Inr m'
          \<and> batches m' = [InsertText ''NOW'' 0 # map Remove removed]
          \<and> map range_length removed = [5]
          \<and> take 3 (document m') = ''NOW''
          \<and> drop 3 (document m') = '' world''"
    by (intro exI conjI)
  with wf show ?thesis
    by (rule conjI)
qed

section \<open>Properties of the scripts and of the plugins together\<close>

text \<open>
  C5: when the promise of \<^verbatim>\<open>ClassicEditor.create\<close> is rejected, each of the four scripts
  does one thing: it calls \<^verbatim>\<open>console.error\<close>, in "Full code" with the error and in the
  other three with the stack of the error.
\<close>

theorem creation_failure_logged:
  "create_then_catch script (Rejected err)
     = [ConsoleError [if script = FullCode then LogError err else LogText (err_stack err)]]"
  by (cases script) (simp_all add: then_catch_def)



end
